theory Spec2Isabelle
  imports Main "HOL-Library.Word" "HOL-Library.Signed_Division"
begin

unbundle bit_operations_syntax

section \<open>Data model of \<^verbatim>\<open>filen/cloud.go\<close>\<close>

text \<open>
  Go strings are byte sequences, as HOL's \<open>string\<close> (a list of 8-bit \<open>char\<close>) is.
  A \<^verbatim>\<open>[]byte\<close> is a list of 8-bit words. The integers of the records below (sizes,
  epoch timestamps, chunk counts, the 0/1 favourite flag) are only copied and compared
  with 1, never computed with, so they are \<open>int\<close>.
\<close>

type_synonym uuid = string
type_synonym bytes = "8 word list"
type_synonym time = int

text \<open>
  Go's \<^verbatim>\<open>error\<close> values. \<open>errorString s\<close> is what \<^verbatim>\<open>errors.New(s)\<close> builds; the
  other constructors are the errors that the collaborators hand back (the remote client,
  the metadata cryptography, \<^verbatim>\<open>encoding/json\<close>), which the code only passes on.
\<close>

datatype error =
    errorString string
  | ClientError string
  | DecryptionFailed
  | NoMatchingKey
  | EncryptionError string
  | JSONError string

record File =
  UUID :: uuid
  Name :: string
  Size :: int
  MimeType :: string
  EncryptionKey :: bytes
  Created :: time
  LastModified :: time
  ParentUUID :: uuid
  Favorited :: bool
  Region :: string
  Bucket :: string
  Chunks :: int

record Directory =
  UUID :: uuid
  Name :: string
  ParentUUID :: uuid
  Color :: string
  Created :: time
  Favorited :: bool

text \<open>
  The entries of a directory listing as the client returns them (the fields that
  \<^verbatim>\<open>ReadDirectory\<close> reads from \<^verbatim>\<open>directoryContent.Uploads\<close> and
  \<^verbatim>\<open>directoryContent.Folders\<close>).
\<close>

record upload =
  UUID :: uuid
  Metadata :: string
  Timestamp :: int
  Parent :: uuid
  Favorited :: int
  Region :: string
  Bucket :: string
  Chunks :: int

record folder =
  UUID :: uuid
  Name :: string
  Parent :: uuid
  Timestamp :: int
  Favorited :: int

record directory_content =
  Uploads :: "upload list"
  Folders :: "folder list"

text \<open>The anonymous struct that \<^verbatim>\<open>ReadDirectory\<close> unmarshals a file's metadata into.\<close>

record file_metadata =
  Name :: string
  Size :: int
  MimeType :: string
  Key :: string
  LastModified :: int

section \<open>The collaborators\<close>

text \<open>
  Everything \<^verbatim>\<open>cloud.go\<close> calls and does not define is a field of the environment:
  the three requests of \<^verbatim>\<open>filen.client\<close> that the modelled functions issue, the
  session's master keys, single-key metadata decryption and encryption,
  \<^verbatim>\<open>json.Unmarshal\<close> into the two anonymous structs and \<^verbatim>\<open>json.Marshal\<close> of the
  name struct, \<^verbatim>\<open>util.TimestampToTime\<close>, \<^verbatim>\<open>crypto.RunSHA521\<close>, \<^verbatim>\<open>uuid.New().String()\<close> and
  \<^verbatim>\<open>time.Now()\<close>. Whatever has an effect or reads the outside world (requests, random
  identifiers, the random nonce of an encryption, the clock) takes the state \<open>'s\<close> of
  that world and returns the next one.
\<close>

record 's env =
  client_GetUserBaseFolder :: "'s \<Rightarrow> (error + uuid) \<times> 's"
  client_GetDirectoryContent :: "uuid \<Rightarrow> 's \<Rightarrow> (error + directory_content) \<times> 's"
  client_CreateDirectory :: "uuid \<Rightarrow> string \<Rightarrow> string \<Rightarrow> uuid \<Rightarrow> 's \<Rightarrow> (error + uuid) \<times> 's"
  MasterKeys :: "bytes list"
  CurrentMasterKey :: bytes
  DecryptMetadata :: "string \<Rightarrow> bytes \<Rightarrow> error + string"
  EncryptMetadata :: "string \<Rightarrow> bytes \<Rightarrow> 's \<Rightarrow> (error + string) \<times> 's"
  json_Unmarshal_file :: "string \<Rightarrow> error + file_metadata"
  json_Unmarshal_name :: "string \<Rightarrow> error + string"
  json_Marshal_name :: "string \<Rightarrow> error + string"
  TimestampToTime :: "int \<Rightarrow> time"
  RunSHA521 :: "bytes \<Rightarrow> bytes"
  uuid_New :: "'s \<Rightarrow> uuid \<times> 's"
  time_Now :: "'s \<Rightarrow> time \<times> 's"

text \<open>
  The requests a call issues are recorded, with their responses, in a trace that is
  threaded along with the state of the outside world.
\<close>

datatype event =
    GetUserBaseFolderCall "error + uuid"
  | GetDirectoryContentCall uuid "error + directory_content"
  | CreateDirectoryCall uuid string string uuid "error + uuid"

type_synonym 's state = "event list \<times> 's"

definition call_GetUserBaseFolder :: "'s env \<Rightarrow> 's state \<Rightarrow> (error + uuid) \<times> 's state" where
  "call_GetUserBaseFolder env st =
     (case client_GetUserBaseFolder env (snd st) of
        (r, s') \<Rightarrow> (r, (fst st @ [GetUserBaseFolderCall r], s')))"

definition call_GetDirectoryContent ::
  "'s env \<Rightarrow> uuid \<Rightarrow> 's state \<Rightarrow> (error + directory_content) \<times> 's state" where
  "call_GetDirectoryContent env u st =
     (case client_GetDirectoryContent env u (snd st) of
        (r, s') \<Rightarrow> (r, (fst st @ [GetDirectoryContentCall u r], s')))"

definition call_CreateDirectory ::
  "'s env \<Rightarrow> uuid \<Rightarrow> string \<Rightarrow> string \<Rightarrow> uuid \<Rightarrow> 's state \<Rightarrow> (error + uuid) \<times> 's state" where
  "call_CreateDirectory env u metadataEncrypted nameHashed parentUUID st =
     (case client_CreateDirectory env u metadataEncrypted nameHashed parentUUID (snd st) of
        (r, s') \<Rightarrow>
          (r, (fst st @ [CreateDirectoryCall u metadataEncrypted nameHashed parentUUID r], s')))"

text \<open>
  Modelled from the spec: \<^verbatim>\<open>crypto.DecryptMetadataAllKeys\<close> is not among the sources.
  Section 4.3: it attempts the single-key decryption with each key of the set, in order,
  returns the first success, and fails with \<open>NoMatchingKey\<close> only if every key fails.
\<close>

fun DecryptMetadataAllKeys ::
  "(string \<Rightarrow> bytes \<Rightarrow> error + string) \<Rightarrow> string \<Rightarrow> bytes list \<Rightarrow> error + string" where
  "DecryptMetadataAllKeys dec c [] = Inl NoMatchingKey"
| "DecryptMetadataAllKeys dec c (k # ks) =
     (case dec c k of
        Inr p \<Rightarrow> Inr p
      | Inl _ \<Rightarrow> DecryptMetadataAllKeys dec c ks)"

section \<open>Bytes and hexadecimal digits\<close>

text \<open>\<^verbatim>\<open>[]byte(s)\<close> and \<^verbatim>\<open>hex.EncodeToString\<close> (two lower-case digits a byte).\<close>

definition bytes_of_string :: "string \<Rightarrow> bytes" where
  "bytes_of_string s = map (\<lambda>c. of_nat (of_char c)) s"

definition hextable :: string where
  "hextable = ''0123456789abcdef''"

definition EncodeToString :: "bytes \<Rightarrow> string" where
  "EncodeToString src =
     concat (map (\<lambda>v. [hextable ! unat (drop_bit 4 v), hextable ! unat (v AND 0x0f)]) src)"

section \<open>Paths\<close>

text \<open>
  \<^verbatim>\<open>strings.Split(path, "/")\<close> for a one-character separator: the pieces between the
  separators, in order; the empty string gives one empty piece.
  \<^verbatim>\<open>strings.Join(segments, "")\<close> is \<open>concat\<close>.
\<close>

fun Split :: "string \<Rightarrow> char \<Rightarrow> string list" where
  "Split [] sep = [[]]"
| "Split (c # cs) sep =
     (if c = sep then [] # Split cs sep
      else (case Split cs sep of
              [] \<Rightarrow> [[c]]
            | s # ss \<Rightarrow> (c # s) # ss))"

section \<open>Reading a directory\<close>

text \<open>\<^verbatim>\<open>GetBaseFolderUUID\<close>\<close>

definition GetBaseFolderUUID :: "'s env \<Rightarrow> 's state \<Rightarrow> (error + uuid) \<times> 's state" where
  "GetBaseFolderUUID env st =
     (case call_GetUserBaseFolder env st of
        (Inl err, st') \<Rightarrow> (Inl err, st')
      | (Inr userBaseFolder, st') \<Rightarrow> (Inr userBaseFolder, st'))"

text \<open>
  The two loops of \<^verbatim>\<open>ReadDirectory\<close>: each appends one decoded entry to the slice
  built so far and returns at the first entry that fails to decrypt or to unmarshal.
\<close>

fun transform_files :: "'s env \<Rightarrow> File list \<Rightarrow> upload list \<Rightarrow> error + File list" where
  "transform_files env files [] = Inr files"
| "transform_files env files (file # rest) =
     (case DecryptMetadataAllKeys (DecryptMetadata env) (upload.Metadata file) (MasterKeys env) of
        Inl err \<Rightarrow> Inl err
      | Inr metadataStr \<Rightarrow>
          (case json_Unmarshal_file env metadataStr of
             Inl err \<Rightarrow> Inl err
           | Inr metadata \<Rightarrow>
               transform_files env
                 (files @
                  [\<lparr>File.UUID = upload.UUID file,
                    Name = file_metadata.Name metadata,
                    Size = file_metadata.Size metadata,
                    MimeType = file_metadata.MimeType metadata,
                    EncryptionKey = bytes_of_string (file_metadata.Key metadata),
                    Created = TimestampToTime env (upload.Timestamp file),
                    LastModified = TimestampToTime env (file_metadata.LastModified metadata),
                    ParentUUID = upload.Parent file,
                    Favorited = (upload.Favorited file = 1),
                    Region = upload.Region file,
                    Bucket = upload.Bucket file,
                    Chunks = upload.Chunks file\<rparr>])
                 rest))"

fun transform_directories ::
  "'s env \<Rightarrow> Directory list \<Rightarrow> folder list \<Rightarrow> error + Directory list" where
  "transform_directories env directories [] = Inr directories"
| "transform_directories env directories (directory # rest) =
     (case DecryptMetadataAllKeys (DecryptMetadata env) (folder.Name directory) (MasterKeys env) of
        Inl err \<Rightarrow> Inl err
      | Inr nameStr \<Rightarrow>
          (case json_Unmarshal_name env nameStr of
             Inl err \<Rightarrow> Inl err
           | Inr name \<Rightarrow>
               transform_directories env
                 (directories @
                  [\<lparr>Directory.UUID = folder.UUID directory,
                    Name = name,
                    ParentUUID = folder.Parent directory,
                    Color = ''<none>'',
                    Created = TimestampToTime env (folder.Timestamp directory),
                    Favorited = (folder.Favorited directory = 1)\<rparr>])
                 rest))"

definition ReadDirectory ::
  "'s env \<Rightarrow> uuid \<Rightarrow> 's state \<Rightarrow> (error + File list \<times> Directory list) \<times> 's state" where
  "ReadDirectory env u st =
     (case call_GetDirectoryContent env u st of
        (Inl err, st') \<Rightarrow> (Inl err, st')
      | (Inr directoryContent, st') \<Rightarrow>
          (case transform_files env [] (Uploads directoryContent) of
             Inl err \<Rightarrow> (Inl err, st')
           | Inr files \<Rightarrow>
               (case transform_directories env [] (Folders directoryContent) of
                  Inl err \<Rightarrow> (Inl err, st')
                | Inr directories \<Rightarrow> (Inr (files, directories), st'))))"

section \<open>Resolving a path\<close>

text \<open>
  The loop of \<^verbatim>\<open>FindItem\<close> over the segments from index \<open>segmentIdx\<close> on, where \<open>n\<close>
  is \<^verbatim>\<open>len(segments)\<close>. \<open>Inl r\<close>: the loop body returned \<open>r\<close> (an error, or the pair
  of the file and directory pointers, \<open>None\<close> for nil). \<open>Inr currentUUID\<close>: the loop
  ran to its end. A \<^verbatim>\<open>for ... { if match { return } }\<close> scan is \<open>find\<close>: the first
  match decides.
\<close>

fun FindItem_loop ::
  "'s env \<Rightarrow> bool \<Rightarrow> nat \<Rightarrow> uuid \<Rightarrow> nat \<Rightarrow> string list \<Rightarrow> 's state \<Rightarrow>
     ((error + File option \<times> Directory option) + uuid) \<times> 's state" where
  "FindItem_loop env requireDirectory n currentUUID segmentIdx [] st = (Inr currentUUID, st)"
| "FindItem_loop env requireDirectory n currentUUID segmentIdx (segment # rest) st =
     (if segment = [] then
        FindItem_loop env requireDirectory n currentUUID (segmentIdx + 1) rest st
      else
        (case ReadDirectory env currentUUID st of
           (Inl err, st') \<Rightarrow> (Inl (Inl err), st')
         | (Inr (files, directories), st') \<Rightarrow>
             (case (if \<not> requireDirectory
                    then find (\<lambda>file. File.Name file = segment) files else None) of
                Some file \<Rightarrow> (Inl (Inr (Some file, None)), st')
              | None \<Rightarrow>
                  (case find (\<lambda>directory. Directory.Name directory = segment) directories of
                     Some directory \<Rightarrow>
                       if int segmentIdx = int n - 1
                       then (Inl (Inr (None, Some directory)), st')
                       else FindItem_loop env requireDirectory n (Directory.UUID directory)
                              (segmentIdx + 1) rest st'
                   | None \<Rightarrow> (Inl (Inr (None, None)), st')))))"

definition FindItem ::
  "'s env \<Rightarrow> string \<Rightarrow> bool \<Rightarrow> 's state \<Rightarrow>
     (error + File option \<times> Directory option) \<times> 's state" where
  "FindItem env path requireDirectory st =
     (case GetBaseFolderUUID env st of
        (Inl err, st') \<Rightarrow> (Inl err, st')
      | (Inr baseFolderUUID, st') \<Rightarrow>
          (let segments = Split path CHR ''/'' in
           if length (concat segments) = 0
           then (Inl (errorString (''no segments in path '' @ path)), st')
           else (case FindItem_loop env requireDirectory (length segments)
                        baseFolderUUID 0 segments st' of
                   (Inl r, st'') \<Rightarrow> (r, st'')
                 | (Inr _, st'') \<Rightarrow> (Inl (errorString ''unreachable''), st''))))"

definition FindItemUUID ::
  "'s env \<Rightarrow> string \<Rightarrow> bool \<Rightarrow> 's state \<Rightarrow> (error + uuid) \<times> 's state" where
  "FindItemUUID env path requireDirectory st =
     (if length (concat (Split path CHR ''/'')) = 0
      then (case GetBaseFolderUUID env st of
              (Inl err, st') \<Rightarrow> (Inl err, st')
            | (Inr baseFolderUUID, st') \<Rightarrow> (Inr baseFolderUUID, st'))
      else (case FindItem env path requireDirectory st of
              (Inl err, st') \<Rightarrow> (Inl err, st')
            | (Inr (Some file, _), st') \<Rightarrow> (Inr (File.UUID file), st')
            | (Inr (None, Some directory), st') \<Rightarrow> (Inr (Directory.UUID directory), st')
            | (Inr (None, None), st') \<Rightarrow> (Inr [], st')))"

section \<open>Creating directories\<close>

text \<open>
  \<^verbatim>\<open>CreateDirectory\<close>; \<open>nameHashed\<close> is its local variable of that name. The random
  identifier, the encryption and the clock read the outside world and issue no request,
  so they leave the trace as it is.
\<close>

definition nameHashed :: "'s env \<Rightarrow> string \<Rightarrow> string" where
  "nameHashed env name = EncodeToString (RunSHA521 env (bytes_of_string name))"

definition CreateDirectory ::
  "'s env \<Rightarrow> uuid \<Rightarrow> string \<Rightarrow> 's state \<Rightarrow> (error + Directory) \<times> 's state" where
  "CreateDirectory env parentUUID name st =
     (case uuid_New env (snd st) of
        (directoryUUID, s1) \<Rightarrow>
          (case json_Marshal_name env name of
             Inl err \<Rightarrow> (Inl err, (fst st, s1))
           | Inr metadataStr \<Rightarrow>
               (case EncryptMetadata env metadataStr (CurrentMasterKey env) s1 of
                  (Inl err, s2) \<Rightarrow> (Inl err, (fst st, s2))
                | (Inr metadataEncrypted, s2) \<Rightarrow>
                    (case call_CreateDirectory env directoryUUID metadataEncrypted
                            (nameHashed env name) parentUUID (fst st, s2) of
                       (Inl err, st3) \<Rightarrow> (Inl err, st3)
                     | (Inr response, st3) \<Rightarrow>
                         (case time_Now env (snd st3) of
                            (now, s4) \<Rightarrow>
                              (Inr \<lparr>Directory.UUID = response,
                                    Name = name,
                                    ParentUUID = parentUUID,
                                    Color = [],
                                    Created = now,
                                    Favorited = False\<rparr>,
                               (fst st3, s4)))))))"

text \<open>
  The loop of \<^verbatim>\<open>FindDirectoryOrCreate\<close> over the remaining segments; at its end the
  function returns \<^verbatim>\<open>currentUUID\<close>.
\<close>

fun FindDirectoryOrCreate_loop ::
  "'s env \<Rightarrow> uuid \<Rightarrow> string list \<Rightarrow> 's state \<Rightarrow> (error + uuid) \<times> 's state" where
  "FindDirectoryOrCreate_loop env currentUUID [] st = (Inr currentUUID, st)"
| "FindDirectoryOrCreate_loop env currentUUID (segment # rest) st =
     (if segment = [] then FindDirectoryOrCreate_loop env currentUUID rest st
      else
        (case ReadDirectory env currentUUID st of
           (Inl err, st') \<Rightarrow> (Inl err, st')
         | (Inr (_, directories), st') \<Rightarrow>
             (case find (\<lambda>directory. Directory.Name directory = segment) directories of
                Some directory \<Rightarrow>
                  FindDirectoryOrCreate_loop env (Directory.UUID directory) rest st'
              | None \<Rightarrow>
                  (case CreateDirectory env currentUUID segment st' of
                     (Inl err, st'') \<Rightarrow> (Inl err, st'')
                   | (Inr directory, st'') \<Rightarrow>
                       FindDirectoryOrCreate_loop env (Directory.UUID directory) rest st''))))"

definition FindDirectoryOrCreate ::
  "'s env \<Rightarrow> string \<Rightarrow> 's state \<Rightarrow> (error + uuid) \<times> 's state" where
  "FindDirectoryOrCreate env path st =
     (case GetBaseFolderUUID env st of
        (Inl err, st') \<Rightarrow> (Inl err, st')
      | (Inr baseFolderUUID, st') \<Rightarrow>
          (let segments = Split path CHR ''/'' in
           if length (concat segments) = 0 then (Inr baseFolderUUID, st')
           else FindDirectoryOrCreate_loop env baseFolderUUID segments st'))"

section \<open>SHA-512\<close>

text \<open>
  The hash behind \<^verbatim>\<open>sha512.New\<close> of Go's standard library, as FIPS 180-4 defines it:
  the message is padded to a multiple of 128 bytes (a \<open>0x80\<close> byte, zeros, the bit
  length as 16 big-endian bytes), each block is expanded to 80 words of 64 bits and
  mixed into the eight state words by 80 rounds, and the digest is the state, big-endian.
\<close>

type_synonym hstate =
  "64 word \<times> 64 word \<times> 64 word \<times> 64 word \<times> 64 word \<times> 64 word \<times> 64 word \<times> 64 word"

definition rotr :: "nat \<Rightarrow> 64 word \<Rightarrow> 64 word" where
  "rotr n x = drop_bit n x OR push_bit (64 - n) x"

definition K512 :: "64 word list" where
  "K512 =
   [0x428A2F98D728AE22, 0x7137449123EF65CD, 0xB5C0FBCFEC4D3B2F, 0xE9B5DBA58189DBBC,
    0x3956C25BF348B538, 0x59F111F1B605D019, 0x923F82A4AF194F9B, 0xAB1C5ED5DA6D8118,
    0xD807AA98A3030242, 0x12835B0145706FBE, 0x243185BE4EE4B28C, 0x550C7DC3D5FFB4E2,
    0x72BE5D74F27B896F, 0x80DEB1FE3B1696B1, 0x9BDC06A725C71235, 0xC19BF174CF692694,
    0xE49B69C19EF14AD2, 0xEFBE4786384F25E3, 0x0FC19DC68B8CD5B5, 0x240CA1CC77AC9C65,
    0x2DE92C6F592B0275, 0x4A7484AA6EA6E483, 0x5CB0A9DCBD41FBD4, 0x76F988DA831153B5,
    0x983E5152EE66DFAB, 0xA831C66D2DB43210, 0xB00327C898FB213F, 0xBF597FC7BEEF0EE4,
    0xC6E00BF33DA88FC2, 0xD5A79147930AA725, 0x06CA6351E003826F, 0x142929670A0E6E70,
    0x27B70A8546D22FFC, 0x2E1B21385C26C926, 0x4D2C6DFC5AC42AED, 0x53380D139D95B3DF,
    0x650A73548BAF63DE, 0x766A0ABB3C77B2A8, 0x81C2C92E47EDAEE6, 0x92722C851482353B,
    0xA2BFE8A14CF10364, 0xA81A664BBC423001, 0xC24B8B70D0F89791, 0xC76C51A30654BE30,
    0xD192E819D6EF5218, 0xD69906245565A910, 0xF40E35855771202A, 0x106AA07032BBD1B8,
    0x19A4C116B8D2D0C8, 0x1E376C085141AB53, 0x2748774CDF8EEB99, 0x34B0BCB5E19B48A8,
    0x391C0CB3C5C95A63, 0x4ED8AA4AE3418ACB, 0x5B9CCA4F7763E373, 0x682E6FF3D6B2B8A3,
    0x748F82EE5DEFB2FC, 0x78A5636F43172F60, 0x84C87814A1F0AB72, 0x8CC702081A6439EC,
    0x90BEFFFA23631E28, 0xA4506CEBDE82BDE9, 0xBEF9A3F7B2C67915, 0xC67178F2E372532B,
    0xCA273ECEEA26619C, 0xD186B8C721C0C207, 0xEADA7DD6CDE0EB1E, 0xF57D4F7FEE6ED178,
    0x06F067AA72176FBA, 0x0A637DC5A2C898A6, 0x113F9804BEF90DAE, 0x1B710B35131C471B,
    0x28DB77F523047D84, 0x32CAAB7B40C72493, 0x3C9EBE0A15C9BEBC, 0x431D67C49C100D4C,
    0x4CC5D4BECB3E42B6, 0x597F299CFC657E2A, 0x5FCB6FAB3AD6FAEC, 0x6C44198C4A475817]"

definition H512 :: hstate where
  "H512 =
     (0x6A09E667F3BCC908, 0xBB67AE8584CAA73B, 0x3C6EF372FE94F82B, 0xA54FF53A5F1D36F1,
      0x510E527FADE682D1, 0x9B05688C2B3E6C1F, 0x1F83D9ABFB41BD6B, 0x5BE0CD19137E2179)"

fun be64 :: "bytes \<Rightarrow> 64 word" where
  "be64 [] = 0"
| "be64 (b # bs) = push_bit (8 * length bs) (ucast b) OR be64 bs"

fun words_of :: "bytes \<Rightarrow> 64 word list" where
  "words_of (b0 # b1 # b2 # b3 # b4 # b5 # b6 # b7 # bs) =
     be64 [b0, b1, b2, b3, b4, b5, b6, b7] # words_of bs"
| "words_of _ = []"

text \<open>
  The message schedule, newest word first: one more word for each of the round constants
  still to be served, from the words 2, 7, 15 and 16 places back.
\<close>

fun schedule :: "64 word list \<Rightarrow> 64 word list \<Rightarrow> 64 word list" where
  "schedule [] ws = ws"
| "schedule (k # ks) ws =
     schedule ks
       (((rotr 19 (ws ! 1) XOR rotr 61 (ws ! 1) XOR drop_bit 6 (ws ! 1)) + ws ! 6 +
         (rotr 1 (ws ! 14) XOR rotr 8 (ws ! 14) XOR drop_bit 7 (ws ! 14)) + ws ! 15) # ws)"

fun round512 :: "hstate \<Rightarrow> 64 word \<times> 64 word \<Rightarrow> hstate" where
  "round512 (a, b, c, d, e, f, g, h) (k, w) =
     (let t1 = h + (rotr 14 e XOR rotr 18 e XOR rotr 41 e) + ((e AND f) XOR (NOT e AND g)) +
               k + w;
          t2 = (rotr 28 a XOR rotr 34 a XOR rotr 39 a) +
               ((a AND b) XOR (a AND c) XOR (b AND c))
      in (t1 + t2, a, b, c, d + t1, e, f, g))"

fun add_state :: "hstate \<Rightarrow> hstate \<Rightarrow> hstate" where
  "add_state (a, b, c, d, e, f, g, h) (a', b', c', d', e', f', g', h') =
     (a + a', b + b', c + c', d + d', e + e', f + f', g + g', h + h')"

definition compress :: "hstate \<Rightarrow> bytes \<Rightarrow> hstate" where
  "compress hs block =
     add_state hs
       (foldl round512 hs
          (zip K512 (rev (schedule (drop 16 K512) (rev (words_of block))))))"

fun process_blocks :: "nat \<Rightarrow> hstate \<Rightarrow> bytes \<Rightarrow> hstate" where
  "process_blocks 0 hs m = hs"
| "process_blocks (Suc n) hs m = process_blocks n (compress hs (take 128 m)) (drop 128 m)"

fun be_bytes :: "nat \<Rightarrow> nat \<Rightarrow> bytes" where
  "be_bytes 0 n = []"
| "be_bytes (Suc k) n = of_nat (n div 2 ^ (8 * k)) # be_bytes k n"

definition pad512 :: "bytes \<Rightarrow> bytes" where
  "pad512 m =
     m @ [0x80] @ replicate ((239 - length m mod 128) mod 128) 0 @
     be_bytes 16 (8 * length m)"

fun bytes_of_word :: "64 word \<Rightarrow> bytes" where
  "bytes_of_word w =
     [ucast (drop_bit 56 w), ucast (drop_bit 48 w), ucast (drop_bit 40 w),
      ucast (drop_bit 32 w), ucast (drop_bit 24 w), ucast (drop_bit 16 w),
      ucast (drop_bit 8 w), ucast w]"

fun digest :: "hstate \<Rightarrow> bytes" where
  "digest (a, b, c, d, e, f, g, h) =
     bytes_of_word a @ bytes_of_word b @ bytes_of_word c @ bytes_of_word d @
     bytes_of_word e @ bytes_of_word f @ bytes_of_word g @ bytes_of_word h"

definition sha512 :: "bytes \<Rightarrow> bytes" where
  "sha512 m = digest (process_blocks (length (pad512 m) div 128) H512 (pad512 m))"

section \<open>Key derivation (\<^verbatim>\<open>filen/crypto/other.go\<close>)\<close>

text \<open>
  \<^verbatim>\<open>pbkdf2.Key\<close> of \<^verbatim>\<open>golang.org/x/crypto\<close> is a parameter; it is handed its hash as
  the function \<open>sha512\<close>. The helper \<^verbatim>\<open>runSHA521\<close> of the crypto package is not among
  the sources and is a parameter too. Go's \<^verbatim>\<open>/\<close> on integers truncates, as \<open>sdiv\<close>
  does.
\<close>

type_synonym pbkdf2 = "bytes \<Rightarrow> bytes \<Rightarrow> int \<Rightarrow> int \<Rightarrow> (bytes \<Rightarrow> bytes) \<Rightarrow> bytes"

definition DeriveKeyFromPassword :: "pbkdf2 \<Rightarrow> string \<Rightarrow> string \<Rightarrow> int \<Rightarrow> int \<Rightarrow> bytes" where
  "DeriveKeyFromPassword pbkdf2_Key password salt iterations bitLength =
     pbkdf2_Key (bytes_of_string password) (bytes_of_string salt) iterations
       (bitLength sdiv 8) sha512"

text \<open>
  \<^verbatim>\<open>fmt.Sprintf("%032x", b)\<close> for a byte slice: its hexadecimal digits, padded on the
  left to 32 characters (which only a digest of fewer than 16 bytes would need).
\<close>

definition Sprintf_032x :: "bytes \<Rightarrow> string" where
  "Sprintf_032x b =
     (let digits = EncodeToString b
      in replicate (32 - length digits) CHR ''0'' @ digits)"

definition GeneratePasswordAndMasterKey ::
  "pbkdf2 \<Rightarrow> (string \<Rightarrow> bytes) \<Rightarrow> string \<Rightarrow> string \<Rightarrow> string \<times> string" where
  "GeneratePasswordAndMasterKey pbkdf2_Key runSHA521 rawPassword salt =
     (let derivedKey =
            EncodeToString (DeriveKeyFromPassword pbkdf2_Key rawPassword salt 200000 512);
          derivedMasterKey = take (length derivedKey div 2) derivedKey;
          derivedPassword = drop (length derivedKey div 2) derivedKey
      in (derivedMasterKey, Sprintf_032x (runSHA521 derivedPassword)))"

text \<open>
  Modelled from the spec: the helper \<^verbatim>\<open>runSHA521\<close>, which \<^verbatim>\<open>other.go\<close> calls on a
  string, is not among the sources. Section 4.1 says that the second half is hashed once
  more with SHA-512: the helper is taken to be SHA-512 of the bytes of the string.
  \<^verbatim>\<open>GeneratePasswordAndMasterKey\<close> takes the helper as a parameter; this definition
  is what the example puts in.
\<close>

definition spec_runSHA521 :: "string \<Rightarrow> bytes" where
  "spec_runSHA521 s = sha512 (bytes_of_string s)"

section \<open>A remote drive that stores what it is given\<close>

text \<open>
  Modelled from the spec: the remote session object of section 6 (the client package and
  the service behind it are not among the sources). The drive holds the flat,
  parent-keyed entries; a listing returns the entries whose parent is the directory asked
  for, in the order they were stored; creating a directory stores the entry under the
  identifier submitted and answers with that identifier. This drive always answers;
  failing requests are covered by the arbitrary environments of the general theorems.
  \<^verbatim>\<open>uuid.New()\<close> hands out the identifiers \<open>gen 0\<close>, \<open>gen 1\<close>, ... and every
  encryption draws the next nonce.
\<close>

record drive =
  base_folder :: "error + uuid"
  uploads :: "upload list"
  folders :: "folder list"
  uuids :: nat
  nonces :: nat
  clock :: time

definition drive_GetUserBaseFolder :: "drive \<Rightarrow> (error + uuid) \<times> drive" where
  "drive_GetUserBaseFolder d = (base_folder d, d)"

definition drive_GetDirectoryContent ::
  "uuid \<Rightarrow> drive \<Rightarrow> (error + directory_content) \<times> drive" where
  "drive_GetDirectoryContent u d =
     (Inr \<lparr>Uploads = filter (\<lambda>f. upload.Parent f = u) (uploads d),
           Folders = filter (\<lambda>f. folder.Parent f = u) (folders d)\<rparr>, d)"

definition drive_CreateDirectory ::
  "uuid \<Rightarrow> string \<Rightarrow> string \<Rightarrow> uuid \<Rightarrow> drive \<Rightarrow> (error + uuid) \<times> drive" where
  "drive_CreateDirectory u metadata nameHashToken parent d =
     (Inr u,
      d\<lparr>folders := folders d @
           [\<lparr>folder.UUID = u, Name = metadata, Parent = parent,
             Timestamp = clock d, Favorited = 0\<rparr>]\<rparr>)"

text \<open>An environment put on the drive: its keys, decryption and JSON stay as they are.\<close>

definition on_drive ::
  "(nat \<Rightarrow> uuid) \<Rightarrow> (nat \<Rightarrow> string \<Rightarrow> bytes \<Rightarrow> error + string) \<Rightarrow> drive env \<Rightarrow> drive env" where
  "on_drive gen enc env =
     env\<lparr>client_GetUserBaseFolder := drive_GetUserBaseFolder,
         client_GetDirectoryContent := drive_GetDirectoryContent,
         client_CreateDirectory := drive_CreateDirectory,
         EncryptMetadata := (\<lambda>p k d. (enc (nonces d) p k, d\<lparr>nonces := nonces d + 1\<rparr>)),
         uuid_New := (\<lambda>d. (gen (uuids d), d\<lparr>uuids := uuids d + 1\<rparr>)),
         time_Now := (\<lambda>d. (clock d, d))\<rparr>"

section \<open>A small example drive\<close>

text \<open>
  Stand-ins for the collaborators, used to run the functions on concrete inputs: a
  ciphertext is its key in hexadecimal, a bar and the plaintext, and the JSON functions
  read and write exactly the shape \<^verbatim>\<open>{"name":"..."}\<close> (and read \<^verbatim>\<open>{}\<close> as the
  zero value, as \<^verbatim>\<open>json.Unmarshal\<close> does with absent fields). A Go string is any
  sequence of bytes, and \<^verbatim>\<open>json.Marshal\<close> writes the escape of U+FFFD (a backslash
  and \<^verbatim>\<open>ufffd\<close>) in place of a byte that is not part of valid UTF-8, which
  \<^verbatim>\<open>json.Unmarshal\<close> reads as the three bytes of U+FFFD: the stand-ins do so for the
  bytes from 0xF5 on, which occur in no UTF-8 text, and pass every other byte on as it
  is. The example's
  \<^verbatim>\<open>pbkdf2.Key\<close> is a stand-in whose key has two different halves. For
  \<^verbatim>\<open>crypto.RunSHA521\<close>, which is not among the sources either, the example puts in
  SHA-512, as the helper's name says; what the helper does to the name before hashing is
  not known from the sources, and nothing proved below depends on this choice.
\<close>

definition example_pbkdf2 :: pbkdf2 where
  "example_pbkdf2 password salt iter keyLen h =
     replicate (nat keyLen div 2) 0x0f @ replicate (nat keyLen - nat keyLen div 2) 0xf0"

definition example_decrypt :: "string \<Rightarrow> bytes \<Rightarrow> error + string" where
  "example_decrypt c k =
     (if take (2 * length k + 1) c = EncodeToString k @ ''|''
      then Inr (drop (2 * length k + 1) c)
      else Inl DecryptionFailed)"

definition example_encrypt :: "nat \<Rightarrow> string \<Rightarrow> bytes \<Rightarrow> error + string" where
  "example_encrypt nonce p k = Inr (EncodeToString k @ ''|'' @ p)"

definition example_escape :: "char \<Rightarrow> string" where
  "example_escape c = (if (0xF5 :: nat) \<le> of_char c then CHR 0x5C # ''ufffd'' else [c])"

fun example_unescape :: "string \<Rightarrow> string" where
  "example_unescape [] = []"
| "example_unescape (c # s) =
     (if c = CHR 0x5C \<and> take 5 s = ''ufffd''
      then CHR 0xEF # CHR 0xBF # CHR 0xBD # example_unescape (drop 5 s)
      else c # example_unescape s)"

definition example_Marshal_name :: "string \<Rightarrow> error + string" where
  \<open>example_Marshal_name name =
     Inr (''{"name":"'' @ concat (map example_escape name) @ ''"}'')\<close>

definition example_Unmarshal_name :: "string \<Rightarrow> error + string" where
  \<open>example_Unmarshal_name s =
     (if s = ''{}'' then Inr []
      else if 11 \<le> length s \<and> take 9 s = ''{"name":"'' \<and> drop (length s - 2) s = ''"}''
      then Inr (example_unescape (take (length s - 11) (drop 9 s)))
      else Inl (JSONError ''invalid character''))\<close>

definition example_Unmarshal_file :: "string \<Rightarrow> error + file_metadata" where
  "example_Unmarshal_file s =
     (case example_Unmarshal_name s of
        Inl err \<Rightarrow> Inl err
      | Inr name \<Rightarrow>
          Inr \<lparr>file_metadata.Name = name, Size = 0, MimeType = [], Key = [],
               LastModified = 0\<rparr>)"

definition example_uuid :: "nat \<Rightarrow> uuid" where
  "example_uuid n = ''new'' @ replicate n CHR ''+''"

definition example_codec :: "drive env" where
  "example_codec =
     \<lparr>client_GetUserBaseFolder = drive_GetUserBaseFolder,
      client_GetDirectoryContent = drive_GetDirectoryContent,
      client_CreateDirectory = drive_CreateDirectory,
      MasterKeys = [[0x31], [0x32]],
      CurrentMasterKey = [0x32],
      DecryptMetadata = example_decrypt,
      EncryptMetadata = (\<lambda>p k d. (example_encrypt 0 p k, d)),
      json_Unmarshal_file = example_Unmarshal_file,
      json_Unmarshal_name = example_Unmarshal_name,
      json_Marshal_name = example_Marshal_name,
      TimestampToTime = (\<lambda>t. t),
      RunSHA521 = sha512,
      uuid_New = (\<lambda>d. (example_uuid 0, d)),
      time_Now = (\<lambda>d. (clock d, d))\<rparr>"

definition example_env :: "drive env" where
  "example_env = on_drive example_uuid example_encrypt example_codec"

text \<open>
  The root holds the directory \<open>a\<close> and the file \<open>c\<close>; \<open>a\<close> holds a file and a
  directory both named \<open>b\<close>; the directory \<open>b\<close> holds an entry that is not JSON, the
  (unlisted) directory \<open>d3\<close> one whose JSON has no field, and the (unlisted) directory
  \<open>d4\<close> a readable entry followed by one encrypted under a key that is not a master key.
\<close>

definition example_drive :: drive where
  \<open>example_drive =
     \<lparr>base_folder = Inr ''root'',
      uploads =
        [\<lparr>upload.UUID = ''f1'', Metadata = ''31|{"name":"b"}'', Timestamp = 10,
          Parent = ''d1'', Favorited = 0, Region = ''r'', Bucket = ''k'', Chunks = 1\<rparr>,
         \<lparr>upload.UUID = ''f2'', Metadata = ''32|{"name":"c"}'', Timestamp = 11,
          Parent = ''root'', Favorited = 1, Region = ''r'', Bucket = ''k'', Chunks = 2\<rparr>,
         \<lparr>upload.UUID = ''f3'', Metadata = ''31|not json'', Timestamp = 12,
          Parent = ''d2'', Favorited = 0, Region = ''r'', Bucket = ''k'', Chunks = 1\<rparr>,
         \<lparr>upload.UUID = ''f4'', Metadata = ''31|{}'', Timestamp = 13,
          Parent = ''d3'', Favorited = 0, Region = ''r'', Bucket = ''k'', Chunks = 1\<rparr>,
         \<lparr>upload.UUID = ''f5'', Metadata = ''32|{"name":"y"}'', Timestamp = 14,
          Parent = ''d4'', Favorited = 0, Region = ''r'', Bucket = ''k'', Chunks = 1\<rparr>,
         \<lparr>upload.UUID = ''f6'', Metadata = ''39|{"name":"z"}'', Timestamp = 15,
          Parent = ''d4'', Favorited = 0, Region = ''r'', Bucket = ''k'', Chunks = 1\<rparr>],
      folders =
        [\<lparr>folder.UUID = ''d1'', Name = ''31|{"name":"a"}'', Parent = ''root'',
          Timestamp = 5, Favorited = 0\<rparr>,
         \<lparr>folder.UUID = ''d2'', Name = ''32|{"name":"b"}'', Parent = ''d1'',
          Timestamp = 6, Favorited = 0\<rparr>],
      uuids = 0, nonces = 0, clock = 100\<rparr>\<close>

definition example_file_b :: File where
  "example_file_b =
     \<lparr>File.UUID = ''f1'', Name = ''b'', Size = 0, MimeType = [], EncryptionKey = [],
      Created = 10, LastModified = 0, ParentUUID = ''d1'', Favorited = False,
      Region = ''r'', Bucket = ''k'', Chunks = 1\<rparr>"

definition example_file_c :: File where
  "example_file_c =
     \<lparr>File.UUID = ''f2'', Name = ''c'', Size = 0, MimeType = [], EncryptionKey = [],
      Created = 11, LastModified = 0, ParentUUID = ''root'', Favorited = True,
      Region = ''r'', Bucket = ''k'', Chunks = 2\<rparr>"

definition example_directory_b :: Directory where
  "example_directory_b =
     \<lparr>Directory.UUID = ''d2'', Name = ''b'', ParentUUID = ''d1'', Color = ''<none>'',
      Created = 6, Favorited = False\<rparr>"

section \<open>Notions for stating what a walk does to the drive\<close>

text \<open>The directories that an event makes known: the one a response names or lists.\<close>

fun event_directories :: "event \<Rightarrow> uuid list" where
  "event_directories (GetUserBaseFolderCall (Inr u)) = [u]"
| "event_directories (GetDirectoryContentCall u (Inr content)) =
     map folder.UUID (Folders content)"
| "event_directories (CreateDirectoryCall u metadata token parent (Inr response)) = [response]"
| "event_directories _ = []"


text \<open>What \<^verbatim>\<open>ReadDirectory\<close> makes of a directory of the drive (the trace left aside).\<close>

definition drive_listing ::
  "drive env \<Rightarrow> drive \<Rightarrow> uuid \<Rightarrow> error + File list \<times> Directory list" where
  "drive_listing env d u = fst (ReadDirectory env u ([], d))"




section \<open>Properties\<close>

subsection \<open>Paths without segments\<close>

lemma concat_Split: "concat (Split s sep) = filter (\<lambda>c. c \<noteq> sep) s"
  by (induction s) (auto split: list.splits)

lemma Split_not_Nil: "Split s sep \<noteq> []"
  by (induction s) (auto split: list.splits)

lemma no_segments:
  "list_all (\<lambda>c. c = CHR ''/'') path \<Longrightarrow> length (concat (Split path CHR ''/'')) = 0"
  unfolding concat_Split by (induction path) auto

lemmas example_defs =
  example_env_def example_codec_def on_drive_def example_drive_def drive_GetUserBaseFolder_def
  drive_GetDirectoryContent_def drive_CreateDirectory_def example_decrypt_def
  example_encrypt_def example_Marshal_name_def example_escape_def example_Unmarshal_name_def
  example_Unmarshal_file_def example_uuid_def bytes_of_string_def EncodeToString_def
  hextable_def

lemmas call_defs =
  GetBaseFolderUUID_def call_GetUserBaseFolder_def call_GetDirectoryContent_def
  call_CreateDirectory_def ReadDirectory_def CreateDirectory_def

text \<open>
  C3, as the code has it. For every path with zero non-empty segments (the empty string,
  or slashes only) \<^verbatim>\<open>FindItem\<close> fetches the root identifier and then returns the error
  \<^verbatim>\<open>no segments in path <path>\<close>: it never returns the root as a Directory result (and
  if the fetch of the root identifier fails, it returns that error).
\<close>

theorem FindItem_no_segments:
  assumes "list_all (\<lambda>c. c = CHR ''/'') path"
  shows "FindItem env path requireDirectory st =
           (case GetBaseFolderUUID env st of
              (Inl err, st') \<Rightarrow> (Inl err, st')
            | (Inr baseFolderUUID, st') \<Rightarrow>
                (Inl (errorString (''no segments in path '' @ path)), st'))"
proof -
  have "length (concat (Split path CHR ''/'')) = 0"
    using assms by (rule no_segments)
  then show ?thesis
    by (simp add: FindItem_def Let_def split: prod.splits sum.splits)
qed

theorem FindItem_no_segments_witness:
  "list_all (\<lambda>c. c = CHR ''/'') ''//'' \<and>
   fst (FindItem example_env ''//'' True ([], example_drive)) =
     Inl (errorString ''no segments in path //'')"
  using FindItem_no_segments [of "''//''" example_env True "([], example_drive)"]
  by (simp add: example_defs call_defs)

text \<open>
  C3 as the specification words it fails: on the example drive, whose root is \<open>root\<close>,
  the empty path gives an error and no Directory.
\<close>

theorem FindItem_empty_path_counterexample:
  "fst (FindItem example_env [] False ([], example_drive)) =
     Inl (errorString ''no segments in path '')"
  by (simp add: FindItem_def example_defs call_defs)

text \<open>
  C9. For every path with zero non-empty segments, \<^verbatim>\<open>FindItemUUID\<close> answers with what
  the fetch of the root folder answers (the root directory's UUID when that fetch
  succeeds), and the only request it issues is that fetch: no directory listing.
\<close>

theorem FindItemUUID_no_segments:
  assumes "list_all (\<lambda>c. c = CHR ''/'') path"
    and "client_GetUserBaseFolder env s = (r, s')"
  shows "FindItemUUID env path requireDirectory (tr, s) =
           (r, (tr @ [GetUserBaseFolderCall r], s'))"
proof -
  have "length (concat (Split path CHR ''/'')) = 0"
    using assms(1) by (rule no_segments)
  then show ?thesis
    using assms(2)
    by (simp add: FindItemUUID_def GetBaseFolderUUID_def call_GetUserBaseFolder_def
        split: prod.splits sum.splits)
qed

theorem FindItemUUID_no_segments_witness:
  "list_all (\<lambda>c. c = CHR ''/'') ''/'' \<and>
   client_GetUserBaseFolder example_env example_drive = (Inr ''root'', example_drive) \<and>
   FindItemUUID example_env ''/'' False ([], example_drive) =
     (Inr ''root'', ([GetUserBaseFolderCall (Inr ''root'')], example_drive))"
  using FindItemUUID_no_segments
    [of "''/''" example_env example_drive "Inr ''root''" example_drive False "[]"]
  by (simp add: example_defs)

subsection \<open>Resolving a path\<close>

lemma FindItem_loop_append:
  "FindItem_loop env rd n cur idx (pre @ rest) st =
     (case FindItem_loop env rd n cur idx pre st of
        (Inl r, st') \<Rightarrow> (Inl r, st')
      | (Inr cur', st') \<Rightarrow> FindItem_loop env rd n cur' (idx + length pre) rest st')"
proof (induction pre arbitrary: cur idx st rd)
  case Nil
  then show ?case by simp
next
  case (Cons segment pre)
  show ?case
    by (auto simp: Cons.IH split: prod.splits sum.splits option.splits)
qed

text \<open>
  C1. On the example drive the root holds a file \<open>c\<close> and no directory \<open>c\<close>. For the
  path \<open>c/x\<close>, whose non-final segment \<open>c\<close> matches only that file, \<^verbatim>\<open>FindItem\<close>
  with \<^verbatim>\<open>requireDirectory = false\<close> returns the file \<open>c\<close>: the scan of the files
  returns at the first match without looking at the segment's index, which only the
  scan of the directories compares with \<^verbatim>\<open>len(segments)-1\<close>.
\<close>

theorem FindItem_file_on_non_final_segment:
  "fst (FindItem example_env ''c/x'' False ([], example_drive)) =
     Inr (Some example_file_c, None)"
  by (simp add: FindItem_def example_defs call_defs example_file_c_def)

text \<open>
  Where the last element of \<^verbatim>\<open>strings.Split(path, "/")\<close> is a non-empty segment, the
  walk over the elements before it runs through to the directory \<open>parentUUID\<close>, and
  the listing of that directory contains both a file and a directory whose decrypted
  name equals the segment, \<^verbatim>\<open>FindItem\<close> returns the file (the first such in the
  listing) and no directory when \<^verbatim>\<open>requireDirectory\<close> is false, and the directory
  (the first such) and no file when it is true.
\<close>

lemma FindItem_file_and_directory:
  assumes path: "Split path CHR ''/'' = pre @ [segment]" and seg: "segment \<noteq> []"
    and base: "GetBaseFolderUUID env st = (Inr baseFolderUUID, st1)"
    and walk: "FindItem_loop env requireDirectory (length pre + 1) baseFolderUUID 0 pre st1 =
                 (Inr parentUUID, st2)"
    and listing: "ReadDirectory env parentUUID st2 = (Inr (files, directories), st3)"
    and f_in: "file \<in> set files" "File.Name file = segment"
    and d_in: "directory \<in> set directories" "Directory.Name directory = segment"
  shows "find (\<lambda>f. File.Name f = segment) files \<noteq> None \<and>
         find (\<lambda>d. Directory.Name d = segment) directories \<noteq> None \<and>
         FindItem env path requireDirectory st =
           (if requireDirectory
            then Inr (None, find (\<lambda>d. Directory.Name d = segment) directories)
            else Inr (find (\<lambda>f. File.Name f = segment) files, None),
            st3)"
proof -
  obtain f where f: "find (\<lambda>f. File.Name f = segment) files = Some f"
    using f_in by (cases "find (\<lambda>f. File.Name f = segment) files") (auto simp: find_None_iff)
  obtain d where d: "find (\<lambda>d. Directory.Name d = segment) directories = Some d"
    using d_in
    by (cases "find (\<lambda>d. Directory.Name d = segment) directories") (auto simp: find_None_iff)
  have last: "FindItem_loop env requireDirectory (length pre + 1) parentUUID (length pre)
                [segment] st2 =
              (Inl (if requireDirectory then Inr (None, Some d) else Inr (Some f, None)), st3)"
    using seg listing f d by simp
  have "FindItem_loop env requireDirectory (length (pre @ [segment])) baseFolderUUID 0
          (pre @ [segment]) st1 =
        (Inl (if requireDirectory then Inr (None, Some d) else Inr (Some f, None)), st3)"
    using walk last by (simp add: FindItem_loop_append del: FindItem_loop.simps)
  then show ?thesis
    using base seg f d by (simp add: FindItem_def path Let_def del: FindItem_loop.simps)
qed

lemma FindItem_file_and_directory_example:
  "fst (FindItem example_env ''a/b'' False ([], example_drive)) =
     Inr (Some example_file_b, None) \<and>
   fst (FindItem example_env ''a/b'' True ([], example_drive)) =
     Inr (None, Some example_directory_b)"
proof -
  define st1 where "st1 = snd (GetBaseFolderUUID example_env ([], example_drive))"
  define st2 where "st2 = snd (ReadDirectory example_env ''root'' st1)"
  define st3 where "st3 = snd (ReadDirectory example_env ''d1'' st2)"
  have path: "Split ''a/b'' CHR ''/'' = [''a''] @ [''b'']" and seg: "''b'' \<noteq> []"
    by simp_all
  have base: "GetBaseFolderUUID example_env ([], example_drive) = (Inr ''root'', st1)"
    by (simp add: st1_def example_defs call_defs)
  have walk: "FindItem_loop example_env rd (length [''a''] + 1) ''root'' 0 [''a''] st1 =
                (Inr ''d1'', st2)" for rd
    by (simp add: st2_def st1_def example_defs call_defs)
  have listing: "ReadDirectory example_env ''d1'' st2 =
                   (Inr ([example_file_b], [example_directory_b]), st3)"
    by (simp add: st3_def st2_def st1_def example_defs call_defs example_file_b_def
        example_directory_b_def)
  have f_in: "example_file_b \<in> set [example_file_b]" "File.Name example_file_b = ''b''"
    and d_in: "example_directory_b \<in> set [example_directory_b]"
      "Directory.Name example_directory_b = ''b''"
    by (simp_all add: example_file_b_def example_directory_b_def)
  show ?thesis
    using FindItem_file_and_directory [OF path seg base walk [of False] listing f_in d_in]
      FindItem_file_and_directory [OF path seg base walk [of True] listing f_in d_in]
    by (simp add: example_file_b_def example_directory_b_def)
qed

text \<open>
  C5. On the example drive the directory \<open>a\<close> holds a file \<open>b\<close> and a directory
  \<open>b\<close>. For the path \<open>a/b\<close> with \<^verbatim>\<open>requireDirectory = true\<close>, \<^verbatim>\<open>FindItem\<close>
  returns the directory. For the path \<open>a/b/\<close>, whose final segment is the same \<open>b\<close>
  (the empty piece after the slash is skipped), it returns the error it calls
  unreachable: the scan of the directories compares the segment's index with
  \<^verbatim>\<open>len(segments)-1\<close>, which counts the empty piece too, so the directory \<open>b\<close> is
  entered, not returned, and the loop runs out. With \<^verbatim>\<open>requireDirectory = false\<close> both
  paths return the file.
\<close>

theorem FindItem_final_segment_before_slash:
  "fst (ReadDirectory example_env ''d1'' ([], example_drive)) =
     Inr ([example_file_b], [example_directory_b]) \<and>
   File.Name example_file_b = ''b'' \<and> Directory.Name example_directory_b = ''b'' \<and>
   fst (FindItem example_env ''a/b'' True ([], example_drive)) =
     Inr (None, Some example_directory_b) \<and>
   fst (FindItem example_env ''a/b/'' True ([], example_drive)) =
     Inl (errorString ''unreachable'') \<and>
   fst (FindItem example_env ''a/b'' False ([], example_drive)) =
     Inr (Some example_file_b, None) \<and>
   fst (FindItem example_env ''a/b/'' False ([], example_drive)) =
     Inr (Some example_file_b, None)"
  by (simp add: FindItem_def example_defs call_defs example_file_b_def
      example_directory_b_def)

subsection \<open>Reading a directory\<close>

lemma DecryptMetadataAllKeys_fails_iff:
  "isl (DecryptMetadataAllKeys dec c keys) \<longleftrightarrow> list_all (\<lambda>k. isl (dec c k)) keys"
  by (induction keys) (auto split: sum.splits)

lemma DecryptMetadataAllKeys_error:
  "DecryptMetadataAllKeys dec c keys = Inl err \<Longrightarrow> err = NoMatchingKey"
  by (induction keys) (auto split: sum.splits)

lemma transform_files_undecryptable:
  assumes "f \<in> set us"
    and "isl (DecryptMetadataAllKeys (DecryptMetadata env) (upload.Metadata f) (MasterKeys env))"
  shows "isl (transform_files env acc us)"
  using assms by (induction us arbitrary: acc) (auto split: sum.splits)

lemma transform_directories_undecryptable:
  assumes "d \<in> set ds"
    and "isl (DecryptMetadataAllKeys (DecryptMetadata env) (folder.Name d) (MasterKeys env))"
  shows "isl (transform_directories env acc ds)"
  using assms by (induction ds arbitrary: acc) (auto split: sum.splits)

lemma transform_files_complete:
  assumes "transform_files env acc us = Inr fs"
  shows "\<exists>new. fs = acc @ new \<and>
           list_all2
             (\<lambda>f file. File.UUID file = upload.UUID f \<and>
                (\<exists>p md. DecryptMetadataAllKeys (DecryptMetadata env) (upload.Metadata f)
                            (MasterKeys env) = Inr p \<and>
                        json_Unmarshal_file env p = Inr md \<and>
                        File.Name file = file_metadata.Name md))
             us new"
  using assms
proof (induction us arbitrary: acc)
  case Nil
  then show ?case by simp
next
  case (Cons f us)
  from Cons.prems obtain p md where
    p: "DecryptMetadataAllKeys (DecryptMetadata env) (upload.Metadata f) (MasterKeys env) = Inr p"
    and md: "json_Unmarshal_file env p = Inr md"
    by (auto split: sum.splits)
  let ?file = "\<lparr>File.UUID = upload.UUID f,
                    Name = file_metadata.Name md,
                    Size = file_metadata.Size md,
                    MimeType = file_metadata.MimeType md,
                    EncryptionKey = bytes_of_string (file_metadata.Key md),
                    Created = TimestampToTime env (upload.Timestamp f),
                    LastModified = TimestampToTime env (file_metadata.LastModified md),
                    ParentUUID = upload.Parent f,
                    Favorited = (upload.Favorited f = 1),
                    Region = upload.Region f,
                    Bucket = upload.Bucket f,
                    Chunks = upload.Chunks f\<rparr>"
  from Cons.prems p md have "transform_files env (acc @ [?file]) us = Inr fs"
    by simp
  from Cons.IH [OF this] obtain new where
    new: "fs = (acc @ [?file]) @ new" and rest: "list_all2
             (\<lambda>f file. File.UUID file = upload.UUID f \<and>
                (\<exists>p md. DecryptMetadataAllKeys (DecryptMetadata env) (upload.Metadata f)
                            (MasterKeys env) = Inr p \<and>
                        json_Unmarshal_file env p = Inr md \<and>
                        File.Name file = file_metadata.Name md))
             us new"
    by blast
  show ?case
  proof (intro exI conjI)
    show "fs = acc @ (?file # new)" using new by simp
    show "list_all2
             (\<lambda>f file. File.UUID file = upload.UUID f \<and>
                (\<exists>p md. DecryptMetadataAllKeys (DecryptMetadata env) (upload.Metadata f)
                            (MasterKeys env) = Inr p \<and>
                        json_Unmarshal_file env p = Inr md \<and>
                        File.Name file = file_metadata.Name md))
             (f # us) (?file # new)"
      using rest p md by simp
  qed
qed

lemma transform_directories_complete:
  assumes "transform_directories env acc ds = Inr dirs"
  shows "\<exists>new. dirs = acc @ new \<and>
           list_all2
             (\<lambda>d directory. Directory.UUID directory = folder.UUID d \<and>
                (\<exists>p. DecryptMetadataAllKeys (DecryptMetadata env) (folder.Name d)
                            (MasterKeys env) = Inr p \<and>
                     json_Unmarshal_name env p = Inr (Directory.Name directory)))
             ds new"
  using assms
proof (induction ds arbitrary: acc)
  case Nil
  then show ?case by simp
next
  case (Cons d ds)
  from Cons.prems obtain p name where
    p: "DecryptMetadataAllKeys (DecryptMetadata env) (folder.Name d) (MasterKeys env) = Inr p"
    and name: "json_Unmarshal_name env p = Inr name"
    by (auto split: sum.splits)
  let ?dir = "\<lparr>Directory.UUID = folder.UUID d,
                    Name = name,
                    ParentUUID = folder.Parent d,
                    Color = ''<none>'',
                    Created = TimestampToTime env (folder.Timestamp d),
                    Favorited = (folder.Favorited d = 1)\<rparr>"
  from Cons.prems p name have "transform_directories env (acc @ [?dir]) ds = Inr dirs"
    by simp
  from Cons.IH [OF this] obtain new where
    new: "dirs = (acc @ [?dir]) @ new" and rest: "list_all2
             (\<lambda>d directory. Directory.UUID directory = folder.UUID d \<and>
                (\<exists>p. DecryptMetadataAllKeys (DecryptMetadata env) (folder.Name d)
                            (MasterKeys env) = Inr p \<and>
                     json_Unmarshal_name env p = Inr (Directory.Name directory)))
             ds new"
    by blast
  show ?case
  proof (intro exI conjI)
    show "dirs = acc @ (?dir # new)" using new by simp
    show "list_all2
             (\<lambda>d directory. Directory.UUID directory = folder.UUID d \<and>
                (\<exists>p. DecryptMetadataAllKeys (DecryptMetadata env) (folder.Name d)
                            (MasterKeys env) = Inr p \<and>
                     json_Unmarshal_name env p = Inr (Directory.Name directory)))
             (d # ds) (?dir # new)"
      using rest p name by simp
  qed
qed

lemma transform_files_append:
  "transform_files env acc (us1 @ us2) =
     (case transform_files env acc us1 of
        Inl err \<Rightarrow> Inl err
      | Inr fs \<Rightarrow> transform_files env fs us2)"
  by (induction us1 arbitrary: acc) (auto split: sum.splits)

lemma transform_directories_append:
  "transform_directories env acc (ds1 @ ds2) =
     (case transform_directories env acc ds1 of
        Inl err \<Rightarrow> Inl err
      | Inr dirs \<Rightarrow> transform_directories env dirs ds2)"
  by (induction ds1 arbitrary: acc) (auto split: sum.splits)

lemma transform_files_accepts:
  assumes "list_all (\<lambda>f. \<exists>p md. DecryptMetadataAllKeys (DecryptMetadata env)
              (upload.Metadata f) (MasterKeys env) = Inr p \<and> json_Unmarshal_file env p = Inr md) us"
  shows "\<exists>fs. transform_files env acc us = Inr fs"
  using assms by (induction us arbitrary: acc) auto

lemma transform_directories_accepts:
  assumes "list_all (\<lambda>d. \<exists>p name. DecryptMetadataAllKeys (DecryptMetadata env)
              (folder.Name d) (MasterKeys env) = Inr p \<and> json_Unmarshal_name env p = Inr name) ds"
  shows "\<exists>dirs. transform_directories env acc ds = Inr dirs"
  using assms by (induction ds arbitrary: acc) auto

text \<open>
  C7. \<^verbatim>\<open>ReadDirectory\<close> is all-or-nothing. Let the listing request succeed. If the
  metadata of any single child (an upload's \<^verbatim>\<open>Metadata\<close> or a folder's \<^verbatim>\<open>Name\<close>)
  fails to decrypt under every master key, the whole call returns an error and no
  slices. And whenever the call succeeds, the files correspond one to one, in order, to
  the uploads of the listing and the directories to its folders, each with the name that
  its metadata decrypts and unmarshals to: no child is dropped.
\<close>

theorem ReadDirectory_all_or_nothing:
  assumes content: "call_GetDirectoryContent env u st = (Inr content, st')"
  shows "(list_ex (\<lambda>c. list_all (\<lambda>k. isl (DecryptMetadata env c k)) (MasterKeys env))
            (map upload.Metadata (Uploads content) @ map folder.Name (Folders content)) \<longrightarrow>
          (\<exists>err. ReadDirectory env u st = (Inl err, st'))) \<and>
         (\<forall>files directories.
            ReadDirectory env u st = (Inr (files, directories), st') \<longrightarrow>
            list_all2
              (\<lambda>f file. File.UUID file = upload.UUID f \<and>
                 (\<exists>p md. DecryptMetadataAllKeys (DecryptMetadata env) (upload.Metadata f)
                             (MasterKeys env) = Inr p \<and>
                         json_Unmarshal_file env p = Inr md \<and>
                         File.Name file = file_metadata.Name md))
              (Uploads content) files \<and>
            list_all2
              (\<lambda>d directory. Directory.UUID directory = folder.UUID d \<and>
                 (\<exists>p. DecryptMetadataAllKeys (DecryptMetadata env) (folder.Name d)
                             (MasterKeys env) = Inr p \<and>
                      json_Unmarshal_name env p = Inr (Directory.Name directory)))
              (Folders content) directories)"
proof (intro conjI impI allI)
  assume "list_ex (\<lambda>c. list_all (\<lambda>k. isl (DecryptMetadata env c k)) (MasterKeys env))
            (map upload.Metadata (Uploads content) @ map folder.Name (Folders content))"
  then consider
    (up) f where "f \<in> set (Uploads content)"
      "isl (DecryptMetadataAllKeys (DecryptMetadata env) (upload.Metadata f) (MasterKeys env))"
    | (dir) d where "d \<in> set (Folders content)"
      "isl (DecryptMetadataAllKeys (DecryptMetadata env) (folder.Name d) (MasterKeys env))"
    by (auto simp: list_ex_iff DecryptMetadataAllKeys_fails_iff)
  then show "\<exists>err. ReadDirectory env u st = (Inl err, st')"
  proof cases
    case up
    then have "isl (transform_files env [] (Uploads content))"
      by (rule transform_files_undecryptable)
    then show ?thesis
      using content by (auto simp: ReadDirectory_def isl_def)
  next
    case dir
    then have "isl (transform_directories env [] (Folders content))"
      by (rule transform_directories_undecryptable)
    then show ?thesis
      using content by (auto simp: ReadDirectory_def isl_def split: sum.splits)
  qed
next
  fix files directories
  assume ok: "ReadDirectory env u st = (Inr (files, directories), st')"
  then have fs: "transform_files env [] (Uploads content) = Inr files"
    and ds: "transform_directories env [] (Folders content) = Inr directories"
    using content by (auto simp: ReadDirectory_def split: sum.splits)
  show "list_all2
              (\<lambda>f file. File.UUID file = upload.UUID f \<and>
                 (\<exists>p md. DecryptMetadataAllKeys (DecryptMetadata env) (upload.Metadata f)
                             (MasterKeys env) = Inr p \<and>
                         json_Unmarshal_file env p = Inr md \<and>
                         File.Name file = file_metadata.Name md))
              (Uploads content) files"
    using transform_files_complete [OF fs] by simp
  show "list_all2
              (\<lambda>d directory. Directory.UUID directory = folder.UUID d \<and>
                 (\<exists>p. DecryptMetadataAllKeys (DecryptMetadata env) (folder.Name d)
                             (MasterKeys env) = Inr p \<and>
                      json_Unmarshal_name env p = Inr (Directory.Name directory)))
              (Folders content) directories"
    using transform_directories_complete [OF ds] by simp
qed

theorem ReadDirectory_all_or_nothing_witness:
  "fst (ReadDirectory example_env ''d4'' ([], example_drive)) = Inl NoMatchingKey \<and>
   fst (ReadDirectory example_env ''d1'' ([], example_drive)) =
     Inr ([example_file_b], [example_directory_b])"
proof -
  define content4 where "content4 =
    projr (fst (call_GetDirectoryContent example_env ''d4'' ([], example_drive)))"
  define st4 where "st4 = snd (call_GetDirectoryContent example_env ''d4'' ([], example_drive))"
  define content1 where "content1 =
    projr (fst (call_GetDirectoryContent example_env ''d1'' ([], example_drive)))"
  define st1 where "st1 = snd (call_GetDirectoryContent example_env ''d1'' ([], example_drive))"
  have c4: "call_GetDirectoryContent example_env ''d4'' ([], example_drive) = (Inr content4, st4)"
    by (simp add: content4_def st4_def example_defs call_defs)
  have c1: "call_GetDirectoryContent example_env ''d1'' ([], example_drive) = (Inr content1, st1)"
    by (simp add: content1_def st1_def example_defs call_defs)
  have bad: "list_ex (\<lambda>c. list_all (\<lambda>k. isl (DecryptMetadata example_env c k))
               (MasterKeys example_env))
            (map upload.Metadata (Uploads content4) @ map folder.Name (Folders content4))"
    by (simp add: content4_def example_defs call_defs)
  have ok: "ReadDirectory example_env ''d1'' ([], example_drive) =
              (Inr ([example_file_b], [example_directory_b]), st1)"
    by (simp add: st1_def example_defs call_defs example_file_b_def example_directory_b_def)
  have err: "fst (ReadDirectory example_env ''d4'' ([], example_drive)) = Inl NoMatchingKey"
    using ReadDirectory_all_or_nothing [OF c4, THEN conjunct1, rule_format, OF bad]
    by (auto simp: example_defs call_defs)
  have "length [example_file_b] = length (Uploads content1)"
    using ReadDirectory_all_or_nothing [OF c1, THEN conjunct2, rule_format, OF ok]
    by (auto dest: list_all2_lengthD)
  then show ?thesis
    using err ok by simp
qed

text \<open>
  C4, as the code has it. \<^verbatim>\<open>ReadDirectory\<close> has no error of its own for malformed
  metadata and validates nothing itself. When the first entry that does not decode (the
  uploads first, then the folders, in the listing's order) decrypts but
  \<^verbatim>\<open>json.Unmarshal\<close> rejects its plaintext, the call returns exactly the error that
  \<^verbatim>\<open>json.Unmarshal\<close> returned. And whenever every entry decrypts and \<^verbatim>\<open>json.Unmarshal\<close>
  accepts every plaintext, the call succeeds: an entry is accepted exactly when
  \<^verbatim>\<open>json.Unmarshal\<close> accepts it.
\<close>

theorem ReadDirectory_unmarshal_error:
  assumes content: "call_GetDirectoryContent env u st = (Inr content, st')"
  shows "(\<forall>us1 f us2 fs1 p err.
            Uploads content = us1 @ f # us2 \<and>
            transform_files env [] us1 = Inr fs1 \<and>
            DecryptMetadataAllKeys (DecryptMetadata env) (upload.Metadata f) (MasterKeys env) =
              Inr p \<and>
            json_Unmarshal_file env p = Inl err \<longrightarrow>
            ReadDirectory env u st = (Inl err, st')) \<and>
         (\<forall>fs ds1 d ds2 dirs1 p err.
            transform_files env [] (Uploads content) = Inr fs \<and>
            Folders content = ds1 @ d # ds2 \<and>
            transform_directories env [] ds1 = Inr dirs1 \<and>
            DecryptMetadataAllKeys (DecryptMetadata env) (folder.Name d) (MasterKeys env) =
              Inr p \<and>
            json_Unmarshal_name env p = Inl err \<longrightarrow>
            ReadDirectory env u st = (Inl err, st')) \<and>
         (list_all (\<lambda>f. \<exists>p md. DecryptMetadataAllKeys (DecryptMetadata env)
                (upload.Metadata f) (MasterKeys env) = Inr p \<and>
                json_Unmarshal_file env p = Inr md) (Uploads content) \<and>
          list_all (\<lambda>d. \<exists>p name. DecryptMetadataAllKeys (DecryptMetadata env)
                (folder.Name d) (MasterKeys env) = Inr p \<and>
                json_Unmarshal_name env p = Inr name) (Folders content) \<longrightarrow>
          (\<exists>files directories. ReadDirectory env u st = (Inr (files, directories), st')))"
proof (intro conjI allI impI)
  fix us1 f us2 fs1 p err
  assume "Uploads content = us1 @ f # us2 \<and>
            transform_files env [] us1 = Inr fs1 \<and>
            DecryptMetadataAllKeys (DecryptMetadata env) (upload.Metadata f) (MasterKeys env) =
              Inr p \<and>
            json_Unmarshal_file env p = Inl err"
  then have "transform_files env [] (Uploads content) = Inl err"
    by (simp add: transform_files_append)
  then show "ReadDirectory env u st = (Inl err, st')"
    using content by (simp add: ReadDirectory_def)
next
  fix fs ds1 d ds2 dirs1 p err
  assume a: "transform_files env [] (Uploads content) = Inr fs \<and>
            Folders content = ds1 @ d # ds2 \<and>
            transform_directories env [] ds1 = Inr dirs1 \<and>
            DecryptMetadataAllKeys (DecryptMetadata env) (folder.Name d) (MasterKeys env) =
              Inr p \<and>
            json_Unmarshal_name env p = Inl err"
  then have "transform_directories env [] (Folders content) = Inl err"
    by (simp add: transform_directories_append)
  then show "ReadDirectory env u st = (Inl err, st')"
    using content a by (simp add: ReadDirectory_def)
next
  assume a: "list_all (\<lambda>f. \<exists>p md. DecryptMetadataAllKeys (DecryptMetadata env)
                (upload.Metadata f) (MasterKeys env) = Inr p \<and>
                json_Unmarshal_file env p = Inr md) (Uploads content) \<and>
          list_all (\<lambda>d. \<exists>p name. DecryptMetadataAllKeys (DecryptMetadata env)
                (folder.Name d) (MasterKeys env) = Inr p \<and>
                json_Unmarshal_name env p = Inr name) (Folders content)"
  obtain fs where fs: "transform_files env [] (Uploads content) = Inr fs"
    using transform_files_accepts a by blast
  obtain dirs where dirs: "transform_directories env [] (Folders content) = Inr dirs"
    using transform_directories_accepts a by blast
  show "\<exists>files directories. ReadDirectory env u st = (Inr (files, directories), st')"
    using content fs dirs by (simp add: ReadDirectory_def)
qed

theorem ReadDirectory_unmarshal_error_witness:
  "fst (ReadDirectory example_env ''d2'' ([], example_drive)) =
     Inl (JSONError ''invalid character'') \<and>
   (\<exists>files directories.
      fst (ReadDirectory example_env ''d1'' ([], example_drive)) = Inr (files, directories))"
proof -
  define content2 where "content2 =
    projr (fst (call_GetDirectoryContent example_env ''d2'' ([], example_drive)))"
  define st2 where "st2 = snd (call_GetDirectoryContent example_env ''d2'' ([], example_drive))"
  define content1 where "content1 =
    projr (fst (call_GetDirectoryContent example_env ''d1'' ([], example_drive)))"
  define st1 where "st1 = snd (call_GetDirectoryContent example_env ''d1'' ([], example_drive))"
  have c2: "call_GetDirectoryContent example_env ''d2'' ([], example_drive) = (Inr content2, st2)"
    by (simp add: content2_def st2_def example_defs call_defs)
  have c1: "call_GetDirectoryContent example_env ''d1'' ([], example_drive) = (Inr content1, st1)"
    by (simp add: content1_def st1_def example_defs call_defs)
  have bad: "Uploads content2 = [] @ hd (Uploads content2) # [] \<and>
      transform_files example_env [] [] = Inr [] \<and>
      DecryptMetadataAllKeys (DecryptMetadata example_env)
        (upload.Metadata (hd (Uploads content2))) (MasterKeys example_env) = Inr ''not json'' \<and>
      json_Unmarshal_file example_env ''not json'' = Inl (JSONError ''invalid character'')"
    by (simp add: content2_def example_defs call_defs)
  have good: "list_all (\<lambda>f. \<exists>p md. DecryptMetadataAllKeys (DecryptMetadata example_env)
                (upload.Metadata f) (MasterKeys example_env) = Inr p \<and>
                json_Unmarshal_file example_env p = Inr md) (Uploads content1) \<and>
          list_all (\<lambda>d. \<exists>p name. DecryptMetadataAllKeys (DecryptMetadata example_env)
                (folder.Name d) (MasterKeys example_env) = Inr p \<and>
                json_Unmarshal_name example_env p = Inr name) (Folders content1)"
    by (simp add: content1_def example_defs call_defs)
  show ?thesis
    using ReadDirectory_unmarshal_error [OF c2, THEN conjunct1, rule_format, OF bad]
      ReadDirectory_unmarshal_error [OF c1, THEN conjunct2, THEN conjunct2, rule_format, OF good]
    by auto
qed

text \<open>
  C4 as the specification words it fails: on the example drive, the listing of \<open>d2\<close>,
  whose only entry decrypts to \<^verbatim>\<open>not json\<close>, returns the parser's own error, and the
  listing of \<open>d3\<close>, whose only entry decrypts to \<^verbatim>\<open>{}\<close>, is accepted with the zero
  values for the absent fields.
\<close>

theorem ReadDirectory_unmarshal_error_counterexample:
  "fst (ReadDirectory example_env ''d2'' ([], example_drive)) =
     Inl (JSONError ''invalid character'') \<and>
   fst (ReadDirectory example_env ''d3'' ([], example_drive)) =
     Inr ([\<lparr>File.UUID = ''f4'', Name = [], Size = 0, MimeType = [], EncryptionKey = [],
            Created = 13, LastModified = 0, ParentUUID = ''d3'', Favorited = False,
            Region = ''r'', Bucket = ''k'', Chunks = 1\<rparr>], [])"
  by (simp add: example_defs call_defs)

subsection \<open>Hexadecimal digits and digests\<close>

lemma length_EncodeToString: "length (EncodeToString src) = 2 * length src"
  by (induction src) (simp_all add: EncodeToString_def)

lemma EncodeToString_Nil [simp]: "EncodeToString [] = []"
  by (simp add: EncodeToString_def)

lemma EncodeToString_append:
  "EncodeToString (xs @ ys) = EncodeToString xs @ EncodeToString ys"
  by (simp add: EncodeToString_def)

lemma take_EncodeToString: "take (2 * k) (EncodeToString src) = EncodeToString (take k src)"
proof -
  have "take (2 * k) (EncodeToString (take k src @ drop k src)) = EncodeToString (take k src)"
    unfolding EncodeToString_append
    by (cases "k \<le> length src") (simp_all add: length_EncodeToString min_def)
  then show ?thesis by simp
qed

lemma drop_EncodeToString: "drop (2 * k) (EncodeToString src) = EncodeToString (drop k src)"
proof -
  have "drop (2 * k) (EncodeToString (take k src @ drop k src)) = EncodeToString (drop k src)"
    unfolding EncodeToString_append
    by (cases "k \<le> length src") (simp_all add: length_EncodeToString min_def)
  then show ?thesis by simp
qed

lemma high_nibble: "unat (drop_bit 4 (v :: 8 word)) < 16"
proof -
  have "unat v < 256" using unsigned_less [of v] by simp
  moreover have "unat (drop_bit 4 v) = drop_bit 4 (unat v)"
    by (rule unat_drop_bit_eq)
  moreover have "drop_bit 4 (unat v) = unat v div 16"
    by (simp add: drop_bit_eq_div)
  ultimately show ?thesis by simp
qed

lemma low_nibble: "unat ((v :: 8 word) AND 0x0f) < 16"
proof -
  have "unat (v AND 0x0f) \<le> unat (0x0f :: 8 word)"
    by (rule word_and_le1 [THEN word_le_nat_alt [THEN iffD1]])
  then show ?thesis by simp
qed

lemma EncodeToString_digits: "set (EncodeToString src) \<subseteq> set hextable"
proof -
  have "hextable ! n \<in> set hextable" if "n < 16" for n
    using that by (intro nth_mem) (simp add: hextable_def)
  then show ?thesis
    using high_nibble low_nibble by (auto simp: EncodeToString_def)
qed

lemma length_digest: "length (digest hs) = 64"
  by (induction hs rule: digest.induct) simp

lemma length_sha512: "length (sha512 m) = 64"
  by (simp add: sha512_def length_digest)

lemma replicate_numeral: "replicate (numeral k) x = x # replicate (pred_numeral k) x"
  by (simp add: numeral_eq_Suc)

text \<open>
  C8. \<^verbatim>\<open>GeneratePasswordAndMasterKey\<close> calls the key-stretching function with 200,000
  iterations, SHA-512 and a key length of 512 / 8 = 64 bytes. When that function returns
  the 64 bytes \<open>dk\<close> it was asked for, and \<^verbatim>\<open>runSHA521\<close> a digest of 64 bytes, the
  hexadecimal digest is split in half: the master key is its first half (64 digits, the
  first 32 bytes of \<open>dk\<close>), and the authentication secret is the hexadecimal form of
  \<^verbatim>\<open>runSHA521\<close> of its second half, taken as a string of 64 digits. The function
  returns a pair of strings and has no error outcome.
\<close>

theorem GeneratePasswordAndMasterKey_halves:
  assumes dk: "dk = pbkdf2_Key (bytes_of_string rawPassword) (bytes_of_string salt) 200000 64 sha512"
    and len: "length dk = 64"
    and hash: "length (runSHA521 (EncodeToString (drop 32 dk))) = 64"
  shows "GeneratePasswordAndMasterKey pbkdf2_Key runSHA521 rawPassword salt =
           (EncodeToString (take 32 dk),
            EncodeToString (runSHA521 (EncodeToString (drop 32 dk)))) \<and>
         length (fst (GeneratePasswordAndMasterKey pbkdf2_Key runSHA521 rawPassword salt)) = 64 \<and>
         length (snd (GeneratePasswordAndMasterKey pbkdf2_Key runSHA521 rawPassword salt)) = 128"
proof -
  have derived: "DeriveKeyFromPassword pbkdf2_Key rawPassword salt 200000 512 = dk"
    by (simp add: DeriveKeyFromPassword_def dk signed_divide_int_def)
  have half: "length (EncodeToString dk) div 2 = 2 * 32"
    by (simp add: length_EncodeToString len)
  have "GeneratePasswordAndMasterKey pbkdf2_Key runSHA521 rawPassword salt =
          (EncodeToString (take 32 dk),
           Sprintf_032x (runSHA521 (EncodeToString (drop 32 dk))))"
    unfolding GeneratePasswordAndMasterKey_def derived Let_def half
      take_EncodeToString drop_EncodeToString ..
  moreover have "Sprintf_032x (runSHA521 (EncodeToString (drop 32 dk))) =
      EncodeToString (runSHA521 (EncodeToString (drop 32 dk)))"
    by (simp add: Sprintf_032x_def Let_def length_EncodeToString hash)
  ultimately show ?thesis
    by (simp add: length_EncodeToString len hash)
qed

theorem GeneratePasswordAndMasterKey_halves_witness:
  "length (example_pbkdf2 (bytes_of_string ''password'') (bytes_of_string ''salt'') 200000 64
      sha512) = 64 \<and>
   fst (GeneratePasswordAndMasterKey example_pbkdf2 spec_runSHA521 ''password'' ''salt'') =
     ''0f0f0f0f0f0f0f0f0f0f0f0f0f0f0f0f0f0f0f0f0f0f0f0f0f0f0f0f0f0f0f0f'' \<and>
   length (snd (GeneratePasswordAndMasterKey example_pbkdf2 spec_runSHA521
      ''password'' ''salt'')) = 128"
proof -
  define dk where "dk = example_pbkdf2 (bytes_of_string ''password'') (bytes_of_string ''salt'')
    200000 64 sha512"
  have len: "length dk = 64"
    by (simp add: dk_def example_pbkdf2_def)
  have hash: "length (spec_runSHA521 (EncodeToString (drop 32 dk))) = 64"
    by (simp add: spec_runSHA521_def length_sha512)
  have "EncodeToString (take 32 dk) =
      ''0f0f0f0f0f0f0f0f0f0f0f0f0f0f0f0f0f0f0f0f0f0f0f0f0f0f0f0f0f0f0f0f''"
    by (simp add: dk_def example_pbkdf2_def EncodeToString_def hextable_def replicate_numeral)
  then show ?thesis
    using GeneratePasswordAndMasterKey_halves
      [of dk example_pbkdf2 "''password''" "''salt''" spec_runSHA521, OF dk_def len hash] len
    by (simp add: dk_def length_EncodeToString spec_runSHA521_def length_sha512)
qed

subsection \<open>The name hash of a new directory\<close>

text \<open>
  Rules that let the simplifier run SHA-512 on a concrete message, and two test vectors
  for the definition.
\<close>

lemma rotr_eval: "rotr n x = take_bit 64 (drop_bit n x OR push_bit (64 - n) x)"
  by (simp add: rotr_def take_bit_word_eq_self)

lemma be_bytes_numeral:
  "be_bytes (numeral k) n = of_nat (n div 2 ^ (8 * pred_numeral k)) # be_bytes (pred_numeral k) n"
  by (simp add: numeral_eq_Suc)

lemma process_blocks_numeral:
  "process_blocks (numeral k) hs m =
     process_blocks (pred_numeral k) (compress hs (take 128 m)) (drop 128 m)"
  by (simp add: numeral_eq_Suc)

lemmas sha512_eval =
  sha512_def pad512_def H512_def bytes_of_string_def replicate_numeral be_bytes_numeral
  process_blocks_numeral compress_def rotr_eval K512_def EncodeToString_def hextable_def

lemma sha512_A:
  "EncodeToString (sha512 (bytes_of_string ''A'')) =
     ''21b4f4bd9e64ed355c3eb676a28ebedaf6d8f17bdc365995b319097153044080516bd083bfcce66121a3072646994c8430cc382b8dc543e84880183bf856cff5''"
  by (simp add: sha512_eval)

lemma sha512_a:
  "EncodeToString (sha512 (bytes_of_string ''a'')) =
     ''1f40fc92da241694750979ee6cf582f2d5d7d28e18335de05abc54d0560e0f5302860c652bf08d560252aa5e74210546f369fbbbce8c12cfc7957b2652fe9a75''"
  by (simp add: sha512_eval)

text \<open>
  What \<^verbatim>\<open>CreateDirectory\<close> itself does for the name hash: the one request it issues
  carries, as the token, the hexadecimal encoding of \<^verbatim>\<open>crypto.RunSHA521\<close> applied to
  the bytes of the name as given, two digits for every byte of the digest. What the
  helper does with these bytes is outside the sources.
\<close>

lemma CreateDirectory_token:
  assumes "uuid_New env s = (directoryUUID, s1)"
    and "json_Marshal_name env name = Inr metadataStr"
    and "EncryptMetadata env metadataStr (CurrentMasterKey env) s1 = (Inr metadataEncrypted, s2)"
    and "client_CreateDirectory env directoryUUID metadataEncrypted
           (EncodeToString (RunSHA521 env (bytes_of_string name))) parentUUID s2 = (r, s3)"
  shows "fst (snd (CreateDirectory env parentUUID name (tr, s))) =
           tr @ [CreateDirectoryCall directoryUUID metadataEncrypted
                   (EncodeToString (RunSHA521 env (bytes_of_string name))) parentUUID r] \<and>
         length (EncodeToString (RunSHA521 env (bytes_of_string name))) =
           2 * length (RunSHA521 env (bytes_of_string name)) \<and>
         set (EncodeToString (RunSHA521 env (bytes_of_string name))) \<subseteq> set hextable"
  using assms
  by (simp add: CreateDirectory_def call_CreateDirectory_def nameHashed_def
      length_EncodeToString EncodeToString_digits split: prod.splits sum.splits)

subsection \<open>Finding or creating directories\<close>

lemma on_drive_simps [simp]:
  "client_GetUserBaseFolder (on_drive gen enc env) = drive_GetUserBaseFolder"
  "client_GetDirectoryContent (on_drive gen enc env) = drive_GetDirectoryContent"
  "client_CreateDirectory (on_drive gen enc env) = drive_CreateDirectory"
  "EncryptMetadata (on_drive gen enc env) =
     (\<lambda>p k d. (enc (nonces d) p k, d\<lparr>nonces := nonces d + 1\<rparr>))"
  "uuid_New (on_drive gen enc env) = (\<lambda>d. (gen (uuids d), d\<lparr>uuids := uuids d + 1\<rparr>))"
  "time_Now (on_drive gen enc env) = (\<lambda>d. (clock d, d))"
  "MasterKeys (on_drive gen enc env) = MasterKeys env"
  "CurrentMasterKey (on_drive gen enc env) = CurrentMasterKey env"
  "DecryptMetadata (on_drive gen enc env) = DecryptMetadata env"
  "json_Unmarshal_file (on_drive gen enc env) = json_Unmarshal_file env"
  "json_Unmarshal_name (on_drive gen enc env) = json_Unmarshal_name env"
  "json_Marshal_name (on_drive gen enc env) = json_Marshal_name env"
  "TimestampToTime (on_drive gen enc env) = TimestampToTime env"
  "RunSHA521 (on_drive gen enc env) = RunSHA521 env"
  by (simp_all add: on_drive_def)




lemma ReadDirectory_events:
  assumes "ReadDirectory env u st = (Inr (files, directories), st')"
  shows "\<exists>content. fst st' = fst st @ [GetDirectoryContentCall u (Inr content)] \<and>
           map Directory.UUID directories = map folder.UUID (Folders content)"
proof -
  obtain r s' where r: "client_GetDirectoryContent env u (snd st) = (r, s')"
    by (cases "client_GetDirectoryContent env u (snd st)")
  with assms obtain content where content: "r = Inr content"
    by (cases r) (auto simp: ReadDirectory_def call_GetDirectoryContent_def)
  from assms r content have st': "st' = (fst st @ [GetDirectoryContentCall u (Inr content)], s')"
    and ds: "transform_directories env [] (Folders content) = Inr directories"
    by (auto simp: ReadDirectory_def call_GetDirectoryContent_def split: sum.splits)
  from transform_directories_complete [OF ds]
  have "list_all2 (\<lambda>d directory. Directory.UUID directory = folder.UUID d)
          (Folders content) directories"
    by (auto elim: list_all2_mono)
  then have "map Directory.UUID directories = map folder.UUID (Folders content)"
    by (induction rule: list_all2_induct) auto
  with st' show ?thesis by auto
qed

lemma CreateDirectory_events:
  assumes "CreateDirectory env parentUUID name st = (Inr directory, st')"
  shows "Directory.Name directory = name \<and> Directory.ParentUUID directory = parentUUID \<and>
         (\<exists>u c. fst st' =
            fst st @ [CreateDirectoryCall u c (nameHashed env name) parentUUID
                        (Inr (Directory.UUID directory))])"
  using assms
  by (auto simp: CreateDirectory_def call_CreateDirectory_def split: prod.splits sum.splits)

lemma find_SomeD: "find P xs = Some x \<Longrightarrow> x \<in> set xs \<and> P x"
  by (auto simp: find_Some_iff)

lemma FindDirectoryOrCreate_loop_origin:
  assumes "FindDirectoryOrCreate_loop env cur segments st = (Inr u, st')"
  shows "\<exists>new. fst st' = fst st @ new \<and>
           (u = cur \<or> u \<in> set (concat (map event_directories new)))"
  using assms
proof (induction segments arbitrary: cur st)
  case Nil
  then show ?case by simp
next
  case (Cons segment rest)
  show ?case
  proof (cases "segment = []")
    case True
    with Cons.prems have "FindDirectoryOrCreate_loop env cur rest st = (Inr u, st')" by simp
    from Cons.IH [OF this] show ?thesis .
  next
    case False
    with Cons.prems obtain files directories st1 where
      listing: "ReadDirectory env cur st = (Inr (files, directories), st1)"
      by (auto split: prod.splits sum.splits)
    from ReadDirectory_events [OF listing] obtain content where
      ev1: "fst st1 = fst st @ [GetDirectoryContentCall cur (Inr content)]"
      and ids: "map Directory.UUID directories = map folder.UUID (Folders content)"
      by blast
    show ?thesis
    proof (cases "find (\<lambda>directory. Directory.Name directory = segment) directories")
      case (Some directory)
      with Cons.prems False listing
      have "FindDirectoryOrCreate_loop env (Directory.UUID directory) rest st1 = (Inr u, st')"
        by simp
      from Cons.IH [OF this] obtain new where
        new: "fst st' = fst st1 @ new"
        and u: "u = Directory.UUID directory \<or> u \<in> set (concat (map event_directories new))"
        by blast
      from Some have "directory \<in> set directories" by (auto dest: find_SomeD)
      then have "Directory.UUID directory \<in> set (map folder.UUID (Folders content))"
        unfolding ids [symmetric] by simp
      with new u ev1 show ?thesis
        by (intro exI [of _ "GetDirectoryContentCall cur (Inr content) # new"]) auto
    next
      case None
      with Cons.prems False listing obtain directory st2 where
        create: "CreateDirectory env cur segment st1 = (Inr directory, st2)"
        and rest: "FindDirectoryOrCreate_loop env (Directory.UUID directory) rest st2 = (Inr u, st')"
        by (auto split: prod.splits sum.splits)
      from CreateDirectory_events [OF create] obtain i c where
        ev2: "fst st2 = fst st1 @ [CreateDirectoryCall i c (nameHashed env segment) cur
                                     (Inr (Directory.UUID directory))]"
        by blast
      from Cons.IH [OF rest] obtain new where
        new: "fst st' = fst st2 @ new"
        and u: "u = Directory.UUID directory \<or> u \<in> set (concat (map event_directories new))"
        by blast
      from new u ev1 ev2 show ?thesis
        by (intro exI [of _ "GetDirectoryContentCall cur (Inr content) #
              CreateDirectoryCall i c (nameHashed env segment) cur
                (Inr (Directory.UUID directory)) # new"]) auto
    qed
  qed
qed



lemma example_root_listing:
  "drive_listing example_env example_drive ''root'' =
     Inr ([example_file_c],
          [\<lparr>Directory.UUID = ''d1'', Name = ''a'', ParentUUID = ''root'', Color = ''<none>'',
            Created = 5, Favorited = False\<rparr>])"
  by (simp add: drive_listing_def example_defs call_defs example_file_c_def)

text \<open>
  C10. \<^verbatim>\<open>FindDirectoryOrCreate\<close> never looks at the files of a listing. When the
  listing of the current directory holds a file named as the segment and no directory of
  that name, the loop calls \<^verbatim>\<open>CreateDirectory\<close> for the segment under the current
  directory: if that fails the error is returned; if it succeeds, one create request has
  been issued with the current directory as parent, the new directory carries the
  segment as its name, and the walk continues into it. And whenever
  \<^verbatim>\<open>FindDirectoryOrCreate\<close> returns a UUID, it is one that a response of this very call
  gave for a directory: the root folder's, a folder entry's of a listing, or the one
  answered to a create request; the upload entries are never a source of it.
\<close>

theorem FindDirectoryOrCreate_ignores_files:
  "(segment \<noteq> [] \<and>
    ReadDirectory env currentUUID st = (Inr (files, directories), st1) \<and>
    file \<in> set files \<and> File.Name file = segment \<and>
    list_all (\<lambda>directory. Directory.Name directory \<noteq> segment) directories \<longrightarrow>
    (\<forall>err st2.
       CreateDirectory env currentUUID segment st1 = (Inl err, st2) \<longrightarrow>
       FindDirectoryOrCreate_loop env currentUUID (segment # rest) st = (Inl err, st2)) \<and>
    (\<forall>directory st2.
       CreateDirectory env currentUUID segment st1 = (Inr directory, st2) \<longrightarrow>
       Directory.Name directory = segment \<and>
       Directory.ParentUUID directory = currentUUID \<and>
       (\<exists>u c. fst st2 =
          fst st1 @ [CreateDirectoryCall u c (nameHashed env segment) currentUUID
                       (Inr (Directory.UUID directory))]) \<and>
       FindDirectoryOrCreate_loop env currentUUID (segment # rest) st =
         FindDirectoryOrCreate_loop env (Directory.UUID directory) rest st2)) \<and>
   (FindDirectoryOrCreate env path st = (Inr u, st') \<longrightarrow>
    u \<in> set (concat (map event_directories (drop (length (fst st)) (fst st')))))"
proof (intro conjI impI allI)
  assume a: "segment \<noteq> [] \<and>
    ReadDirectory env currentUUID st = (Inr (files, directories), st1) \<and>
    file \<in> set files \<and> File.Name file = segment \<and>
    list_all (\<lambda>directory. Directory.Name directory \<noteq> segment) directories"
  then have none: "find (\<lambda>directory. Directory.Name directory = segment) directories = None"
    by (auto simp: find_None_iff list_all_iff)
  {
    fix err st2
    assume "CreateDirectory env currentUUID segment st1 = (Inl err, st2)"
    then show "FindDirectoryOrCreate_loop env currentUUID (segment # rest) st = (Inl err, st2)"
      using a none by simp
  }
  {
    fix directory st2
    assume c: "CreateDirectory env currentUUID segment st1 = (Inr directory, st2)"
    from CreateDirectory_events [OF c]
    show "Directory.Name directory = segment"
      and "Directory.ParentUUID directory = currentUUID"
      and "\<exists>u c. fst st2 =
          fst st1 @ [CreateDirectoryCall u c (nameHashed env segment) currentUUID
                       (Inr (Directory.UUID directory))]"
      by blast+
    show "FindDirectoryOrCreate_loop env currentUUID (segment # rest) st =
         FindDirectoryOrCreate_loop env (Directory.UUID directory) rest st2"
      using a none c by simp
  }
next
  assume r: "FindDirectoryOrCreate env path st = (Inr u, st')"
  obtain b s1 where base: "client_GetUserBaseFolder env (snd st) = (b, s1)"
    by (cases "client_GetUserBaseFolder env (snd st)")
  with r obtain root where b: "b = Inr root"
    by (cases b) (auto simp: FindDirectoryOrCreate_def GetBaseFolderUUID_def
        call_GetUserBaseFolder_def)
  let ?st1 = "(fst st @ [GetUserBaseFolderCall (Inr root)], s1)"
  have g: "GetBaseFolderUUID env st = (Inr root, ?st1)"
    using base b by (simp add: GetBaseFolderUUID_def call_GetUserBaseFolder_def)
  show "u \<in> set (concat (map event_directories (drop (length (fst st)) (fst st'))))"
  proof (cases "length (concat (Split path CHR ''/'')) = 0")
    case True
    with r g have "u = root \<and> st' = ?st1"
      by (auto simp: FindDirectoryOrCreate_def)
    then show ?thesis by simp
  next
    case False
    with r g have "FindDirectoryOrCreate_loop env root (Split path CHR ''/'') ?st1 = (Inr u, st')"
      by (auto simp: FindDirectoryOrCreate_def Let_def split: if_splits)
    from FindDirectoryOrCreate_loop_origin [OF this] obtain new where
      "fst st' = fst ?st1 @ new"
      "u = root \<or> u \<in> set (concat (map event_directories new))"
      by blast
    then show ?thesis by auto
  qed
qed

text \<open>
  On the example drive the root holds the file \<open>c\<close> and no directory \<open>c\<close>: the path
  \<open>c\<close> creates the directory \<open>c\<close> beside the file, which stays where it is.
\<close>

theorem FindDirectoryOrCreate_ignores_files_witness:
  \<open>fst (FindDirectoryOrCreate example_env ''c'' ([], example_drive)) = Inr ''new'' \<and>
   example_file_c \<in> set (fst (projr (drive_listing example_env example_drive ''root''))) \<and>
   folders (snd (snd (FindDirectoryOrCreate example_env ''c'' ([], example_drive)))) =
     folders example_drive @
     [\<lparr>folder.UUID = ''new'', Name = ''32|{"name":"c"}'', Parent = ''root'',
       Timestamp = 100, Favorited = 0\<rparr>] \<and>
   uploads (snd (snd (FindDirectoryOrCreate example_env ''c'' ([], example_drive)))) =
     uploads example_drive \<and>
   ''new'' \<in> set (concat (map event_directories
      (fst (snd (FindDirectoryOrCreate example_env ''c'' ([], example_drive))))))\<close>
proof -
  define st0 where "st0 = snd (GetBaseFolderUUID example_env ([], example_drive))"
  define st1 where "st1 = snd (ReadDirectory example_env ''root'' st0)"
  define dir where "dir = projr (fst (CreateDirectory example_env ''root'' ''c'' st1))"
  define st2 where "st2 = snd (CreateDirectory example_env ''root'' ''c'' st1)"
  have hyp: "''c'' \<noteq> [] \<and>
    ReadDirectory example_env ''root'' st0 =
      (Inr ([example_file_c],
          [\<lparr>Directory.UUID = ''d1'', Name = ''a'', ParentUUID = ''root'', Color = ''<none>'',
            Created = 5, Favorited = False\<rparr>]), st1) \<and>
    example_file_c \<in> set [example_file_c] \<and> File.Name example_file_c = ''c'' \<and>
    list_all (\<lambda>directory. Directory.Name directory \<noteq> ''c'')
      [\<lparr>Directory.UUID = ''d1'', Name = ''a'', ParentUUID = ''root'', Color = ''<none>'',
            Created = 5, Favorited = False\<rparr>]"
    by (simp add: st1_def st0_def example_defs call_defs example_file_c_def)
  have created: "CreateDirectory example_env ''root'' ''c'' st1 = (Inr dir, st2)"
    by (simp add: dir_def st2_def st1_def st0_def example_defs call_defs)
  have result: "fst (FindDirectoryOrCreate example_env ''c'' ([], example_drive)) = Inr ''new''"
    by (simp add: FindDirectoryOrCreate_def example_defs call_defs)
  then have final: "FindDirectoryOrCreate example_env ''c'' ([], example_drive) =
      (Inr ''new'', snd (FindDirectoryOrCreate example_env ''c'' ([], example_drive)))"
    by (simp add: prod_eq_iff)
  have step: "Directory.Name dir = ''c''"
    using FindDirectoryOrCreate_ignores_files
      [where rest = "[]", THEN conjunct1, rule_format, OF hyp, THEN conjunct2, rule_format,
       OF created]
    by (rule conjunct1)
  have "''new'' \<in> set (concat (map event_directories
      (drop (length (fst ([] :: event list, example_drive)))
         (fst (snd (FindDirectoryOrCreate example_env ''c'' ([], example_drive)))))))"
    using final by (rule FindDirectoryOrCreate_ignores_files [THEN conjunct2, rule_format])
  then have origin: "''new'' \<in> set (concat (map event_directories
      (fst (snd (FindDirectoryOrCreate example_env ''c'' ([], example_drive))))))"
    by (simp only: fst_conv list.size drop_0)
  have drive: "folders (snd (snd (FindDirectoryOrCreate example_env ''c'' ([], example_drive)))) =
     folders example_drive @
     [\<lparr>folder.UUID = ''new'', Name = ''32|{\"name\":\"c\"}'', Parent = ''root'',
       Timestamp = 100, Favorited = 0\<rparr>]"
    "uploads (snd (snd (FindDirectoryOrCreate example_env ''c'' ([], example_drive)))) =
       uploads example_drive"
    by (simp_all add: FindDirectoryOrCreate_def example_defs call_defs)
  have sibling: "example_file_c \<in>
      set (fst (projr (drive_listing example_env example_drive ''root'')))"
    by (simp add: example_root_listing)
  from result sibling drive origin step show ?thesis
    by (intro conjI)
qed





















end
